theory Spec2Isabelle
  imports Complex_Main "HOL-Library.Word"
begin

unbundle bit_operations_syntax

section \<open>Embedding of TWCManager.py\<close>

text \<open>
  The definitions below follow \<^verbatim>\<open>src/TWCManager.py\<close>. A Python \<^verbatim>\<open>bytearray\<close> is a list of
  8-bit words, a Python integer is an \<^typ>\<open>int\<close>, a Python float is idealised as a
  \<^typ>\<open>real\<close>, and an exception is a value of the type \<open>error\<close>.
\<close>

type_synonym byte = "8 word"

datatype error = IndexError | KeyError | TypeError | ValueError | NameError | UnicodeEncodeError

subsection \<open>Frame codec: \<^verbatim>\<open>send_msg\<close> and \<open>unescape_msg\<close>\<close>

text \<open>
  The checksum loops of \<^verbatim>\<open>send_msg\<close> and of the receive path add the elements of a slice to an
  unbounded Python integer: \<^verbatim>\<open>for i in range(...): checksum += msg[i]\<close>.
\<close>

fun checksum_loop :: "byte list \<Rightarrow> int \<Rightarrow> int" where
  "checksum_loop [] checksum = checksum"
| "checksum_loop (b # bs) checksum = checksum_loop bs (checksum + uint b)"

text \<open>
  The escaping loop of \<^verbatim>\<open>send_msg\<close> works in place on the message with an index:
  \<^verbatim>\<open>msg[i:i+1] = b'\xdb\xdc'\<close> replaces one byte by two and the index then skips both.
\<close>

function escape_loop :: "nat \<Rightarrow> byte list \<Rightarrow> byte list" where
  "escape_loop i msg =
     (if i < length msg then
        (if msg ! i = 0xC0 then
           escape_loop (i + 1 + 1) (take i msg @ [0xDB, 0xDC] @ drop (i + 1) msg)
         else if msg ! i = 0xDB then
           escape_loop (i + 1 + 1) (take i msg @ [0xDB, 0xDD] @ drop (i + 1) msg)
         else escape_loop (i + 1) msg)
      else msg)"
  by pat_completeness auto
termination
  by (relation "measure (\<lambda>(i, msg). length msg - i)") auto

declare escape_loop.simps [simp del]

text \<open>
  \<^verbatim>\<open>send_msg(msg)\<close>: the value is the byte sequence handed to \<^verbatim>\<open>ser.write\<close>. The assignment of
  \<^verbatim>\<open>timeLastTx\<close> is made where the main loop is modelled.
\<close>

definition send_msg :: "byte list \<Rightarrow> byte list" where
  "send_msg msg =
     (let checksum = checksum_loop (drop 1 msg) 0;
          msg1 = msg @ [word_of_int (checksum AND 0xFF)];
          msg2 = escape_loop 0 msg1
      in [0xC0] @ msg2 @ [0xC0])"

text \<open>
  The loop of \<^verbatim>\<open>unescape_msg\<close>. It reads \<^verbatim>\<open>msg[i+1]\<close> whenever \<^verbatim>\<open>msg[i]\<close> is \<open>0xDB\<close>; on a
  bytearray that read raises \<^verbatim>\<open>IndexError\<close> when \<^verbatim>\<open>i\<close> is the last index. The diagnostic
  print of the third branch is not modelled.
\<close>

function unescape_loop :: "nat \<Rightarrow> byte list \<Rightarrow> error + byte list" where
  "unescape_loop i msg =
     (if i < length msg then
        (if msg ! i = 0xDB then
           (if i + 1 < length msg then
              (if msg ! (i + 1) = 0xDC then
                 unescape_loop (i + 1) (take i msg @ [0xC0] @ drop (i + 2) msg)
               else if msg ! (i + 1) = 0xDD then
                 unescape_loop (i + 1) (take i msg @ [0xDB] @ drop (i + 2) msg)
               else
                 unescape_loop (i + 1) (take i msg @ [0xDB] @ drop (i + 2) msg))
            else Inl IndexError)
         else unescape_loop (i + 1) msg)
      else Inr msg)"
  by pat_completeness auto
termination
  by (relation "measure (\<lambda>(i, msg). length msg - i)") auto

declare unescape_loop.simps [simp del]

text \<open>
  \<^verbatim>\<open>unescape_msg(msg, msgLen)\<close>: cut to \<^verbatim>\<open>msgLen\<close> bytes, unescape, then
  \<^verbatim>\<open>msg[1:len(msg)-1]\<close>.
\<close>

definition unescape_msg :: "byte list \<Rightarrow> nat \<Rightarrow> error + byte list" where
  "unescape_msg msg msgLen =
     (case unescape_loop 0 (take msgLen msg) of
        Inl e \<Rightarrow> Inl e
      | Inr m \<Rightarrow> Inr (drop 1 (take (length m - 1) m)))"

text \<open>
  The receive-side check of the main loop: \<^verbatim>\<open>checksumExpected = msg[len(msg) - 1]\<close>, the sum
  over \<^verbatim>\<open>range(1, len(msg) - 1)\<close>, and the comparison \<^verbatim>\<open>(checksum & 0xFF) != checksumExpected\<close>.
  The value is \<open>Inr True\<close> when the message is accepted.
\<close>

definition checksum_verifies :: "byte list \<Rightarrow> error + bool" where
  "checksum_verifies msg =
     (if msg = [] then Inl IndexError
      else
        (let checksumExpected = msg ! (length msg - 1);
             checksum = checksum_loop (drop 1 (take (length msg - 1) msg)) 0
         in Inr ((checksum AND 0xFF) = uint checksumExpected)))"

text \<open>
  The receive loop of the main program gathers the bytes of a message in \<^verbatim>\<open>msg\<close>. A message
  begun with \<^verbatim>\<open>msgLen == 0\<close> is gathered in a fresh \<^verbatim>\<open>bytearray()\<close>. When a \<open>0xC0\<close> arrives
  after 1 to 14 bytes, the loop assigns \<^verbatim>\<open>msg = data\<close>, and \<^verbatim>\<open>data\<close>, the value of \<^verbatim>\<open>ser.read\<close>,
  is an immutable \<^verbatim>\<open>bytes\<close> object; \<^verbatim>\<open>msg += data\<close> keeps the kind of the buffer.
\<close>

datatype buffer = Bytearray "byte list" | Bytes "byte list"

definition buffer_append :: "buffer \<Rightarrow> byte \<Rightarrow> buffer" where
  "buffer_append msg d =
     (case msg of Bytearray b \<Rightarrow> Bytearray (b @ [d]) | Bytes b \<Rightarrow> Bytes (b @ [d]))"

text \<open>
  One pass of the inner \<^verbatim>\<open>while True\<close> with the byte \<^verbatim>\<open>data\<close> read from the serial line, on the
  buffer and \<^verbatim>\<open>msgLen\<close>. The truth value says whether the pass ends in the \<^verbatim>\<open>break\<close> of
  \<^verbatim>\<open>if(msgLen >= 16 and data[0] == 0xc0)\<close>. \<^verbatim>\<open>ignoredData\<close> is not modelled.
\<close>

definition rx_byte :: "byte \<Rightarrow> buffer \<times> nat \<Rightarrow> (buffer \<times> nat) \<times> bool" where
  "rx_byte d s =
     (let msg = fst s; msgLen = snd s
      in if msgLen = 0 \<and> d \<noteq> 0xC0 then ((msg, msgLen), False)
         else if msgLen > 0 \<and> msgLen < 15 \<and> d = 0xC0 then ((Bytes [d], 1), False)
         else
           (let msg1 = (if msgLen = 0 then Bytearray [] else msg);
                msg2 = buffer_append msg1 d;
                msgLen2 = msgLen + 1
            in ((msg2, msgLen2), msgLen2 \<ge> 16 \<and> d = 0xC0)))"

text \<open>
  The loop over the bytes that arrive, in their order. The value is the buffer and \<^verbatim>\<open>msgLen\<close>
  at the \<^verbatim>\<open>break\<close> that ends a message, or \<open>None\<close> when the bytes run out before: the loop
  then waits for more bytes and drops the partial message after 2 seconds without one (time
  is not modelled), and nothing is decoded.
\<close>

fun rx_loop :: "byte list \<Rightarrow> buffer \<times> nat \<Rightarrow> (buffer \<times> nat) option" where
  "rx_loop [] s = None"
| "rx_loop (d # ds) s =
     (if snd (rx_byte d s) then Some (fst (rx_byte d s)) else rx_loop ds (fst (rx_byte d s)))"

text \<open>
  \<^verbatim>\<open>unescape_msg\<close> on a \<^verbatim>\<open>bytes\<close> object: the slice and the reads work as on a bytearray, but
  \<^verbatim>\<open>bytes\<close> has no item assignment. At the first \<open>0xDB\<close> the loop reads \<^verbatim>\<open>msg[i+1]\<close>
  (\<^verbatim>\<open>IndexError\<close> at the end of the buffer) and then, in each of its three branches, the
  assignment \<^verbatim>\<open>msg[i:i+2] = [...]\<close> raises \<^verbatim>\<open>TypeError\<close>. Without a \<open>0xDB\<close> nothing is assigned.
\<close>

fun unescape_scan_bytes :: "byte list \<Rightarrow> error option" where
  "unescape_scan_bytes [] = None"
| "unescape_scan_bytes (b # bs) =
     (if b = 0xDB then (if bs = [] then Some IndexError else Some TypeError)
      else unescape_scan_bytes bs)"

definition unescape_msg_buffer :: "buffer \<Rightarrow> nat \<Rightarrow> error + buffer" where
  "unescape_msg_buffer msg msgLen =
     (case msg of
        Bytearray b \<Rightarrow>
          (case unescape_msg b msgLen of Inl e \<Rightarrow> Inl e | Inr m \<Rightarrow> Inr (Bytearray m))
      | Bytes b \<Rightarrow>
          (let m = take msgLen b
           in case unescape_scan_bytes m of
                Some e \<Rightarrow> Inl e
              | None \<Rightarrow> Inr (Bytes (drop 1 (take (length m - 1) m)))))"

text \<open>
  The bytes that arrive, taken through the receive loop and then, as the main loop does after
  it, \<^verbatim>\<open>if(msgLen >= 16): msg = unescape_msg(msg, msgLen)\<close>.
\<close>

definition receive_message :: "byte list \<Rightarrow> buffer \<times> nat \<Rightarrow> (error + buffer) option" where
  "receive_message ds s =
     (case rx_loop ds s of
        None \<Rightarrow> None
      | Some (msg, msgLen) \<Rightarrow>
          (if msgLen \<ge> 16 then Some (unescape_msg_buffer msg msgLen) else None))"

text \<open>
  A slave heartbeat as it is on the wire, its amperage \<open>0C C0\<close> escaped, and the same frame
  after the last two bytes \<open>C0 FE\<close> of a message whose beginning was missed.
\<close>

definition example_frame :: "byte list" where
  "example_frame =
     [0xC0, 0xFD, 0xE0, 0xAB, 0xCD, 0x77, 0x77, 0x09, 0x0C, 0xDB, 0xDC, 0, 0, 0, 0, 0x1B, 0xC0]"

definition example_stream :: "byte list" where
  "example_stream = [0x01, 0xC0, 0xFE] @ example_frame"

text \<open>The byte \<^verbatim>\<open>send_msg\<close> appends before escaping.\<close>

definition checksum_byte :: "byte list \<Rightarrow> byte" where
  "checksum_byte msg = word_of_int (checksum_loop (drop 1 msg) 0 AND 0xFF)"

text \<open>A structural description of what the escaping loop does to the bytes from the index on.\<close>

fun esc :: "byte list \<Rightarrow> byte list" where
  "esc [] = []"
| "esc (x # xs) =
     (if x = 0xC0 then [0xDB, 0xDC] else if x = 0xDB then [0xDB, 0xDD] else [x]) @ esc xs"


subsection \<open>Slave sessions and the registry\<close>

text \<open>
  The fields of a \<^verbatim>\<open>TWCSlave\<close> object that this file reads or writes.
\<close>

record TWCSlave =
  TWCID :: "byte list"
  maxAmps :: real
  protocolVersion :: int
  minAmpsTWCSupports :: int
  wiringMaxAmps :: real
  timeLastRx :: real
  lastHeartbeatDebugOutput :: string

text \<open>
  Modelled from the spec: the class \<^verbatim>\<open>TWCSlave\<close> (imported from \<^verbatim>\<open>lib.TWCManager.TWCSlave\<close>) is
  not part of the source at hand. The constructor call \<^verbatim>\<open>TWCSlave(newSlaveID, maxAmps, carapi)\<close>
  creates a session that records the id and the advertised \<^verbatim>\<open>maxAmps\<close>; the initial values of
  the other fields are the fields of the parameter \<open>init\<close>.
\<close>

definition TWCSlave_new :: "TWCSlave \<Rightarrow> byte list \<Rightarrow> real \<Rightarrow> TWCSlave" where
  "TWCSlave_new init newSlaveID a = init\<lparr>TWCID := newSlaveID, maxAmps := a\<rparr>"

text \<open>
  What the program prints or writes, in order. The method \<^verbatim>\<open>send_master_heartbeat\<close> belongs to
  the absent class as well: a call of it is recorded as the event \<open>MasterHeartbeat\<close> with the
  reference of the session it is called on.
\<close>

datatype event =
    SerialWrite "byte list"
  | MasterHeartbeat nat
  | WarnDroppingOldest "byte list"
  | WarnNoReply26 "byte list"
  | DangerWiringMax real
  | AbortCouldDisable "byte list"
  | AbortCouldCrash "byte list"

text \<open>
  The globals of the main program. Session objects live in the store \<open>objs\<close>; a reference to
  a session is its index there. The dictionary \<^verbatim>\<open>slaveTWCs\<close> and the list
  \<^verbatim>\<open>slaveTWCRoundRobin\<close> both hold references, so that a field assignment through one is seen
  through the other, as in Python.
\<close>

record state =
  fakeTWCID :: "byte list"
  masterSign :: "byte list"
  objs :: "TWCSlave list"
  slaveTWCs :: "byte list \<rightharpoonup> nat"
  slaveTWCRoundRobin :: "nat list"
  idxSlaveToSendNextHeartbeat :: nat
  numInitMsgsToSend :: int
  timeLastTx :: real
  spikeAmpsToCancel6ALimit :: int
  lastTWCResponseMsg :: "byte list option"
  out :: "event list"

text \<open>
  The loop of \<^verbatim>\<open>delete_slave\<close>: delete the first list entry whose \<^verbatim>\<open>TWCID\<close> is the given one,
  then \<^verbatim>\<open>break\<close>.
\<close>

fun delete_first :: "TWCSlave list \<Rightarrow> byte list \<Rightarrow> nat list \<Rightarrow> nat list" where
  "delete_first os deleteSlaveID [] = []"
| "delete_first os deleteSlaveID (r # rs) =
     (if TWCID (os ! r) = deleteSlaveID then rs else r # delete_first os deleteSlaveID rs)"

definition delete_slave :: "byte list \<Rightarrow> state \<Rightarrow> state" where
  "delete_slave deleteSlaveID st =
     st\<lparr>slaveTWCRoundRobin := delete_first (objs st) deleteSlaveID (slaveTWCRoundRobin st),
        slaveTWCs := (slaveTWCs st)(deleteSlaveID := None)\<rparr>"

definition new_slave :: "TWCSlave \<Rightarrow> byte list \<Rightarrow> real \<Rightarrow> state \<Rightarrow> nat \<times> state" where
  "new_slave init newSlaveID a st =
     (case slaveTWCs st newSlaveID of
        Some slaveTWC \<Rightarrow> (slaveTWC, st)
      | None \<Rightarrow>
          (let slaveTWC = length (objs st);
               st1 = st\<lparr>objs := objs st @ [TWCSlave_new init newSlaveID a],
                        slaveTWCs := (slaveTWCs st)(newSlaveID \<mapsto> slaveTWC),
                        slaveTWCRoundRobin := slaveTWCRoundRobin st @ [slaveTWC]\<rparr>
           in if length (slaveTWCRoundRobin st1) > 3 then
                (let oldest = TWCID (objs st1 ! (slaveTWCRoundRobin st1 ! 0))
                 in (slaveTWC,
                     delete_slave oldest (st1\<lparr>out := out st1 @ [WarnDroppingOldest oldest]\<rparr>)))
              else (slaveTWC, st1)))"

text \<open>
  The two views of the registry agree: no reference occurs twice in the list, every listed
  session is stored in the dictionary under its own \<^verbatim>\<open>TWCID\<close>, and the dictionary has no other
  key.
\<close>

definition registry_consistent :: "state \<Rightarrow> bool" where
  "registry_consistent st \<longleftrightarrow>
     distinct (slaveTWCRoundRobin st)
     \<and> (\<forall>r \<in> set (slaveTWCRoundRobin st).
           r < length (objs st) \<and> slaveTWCs st (TWCID (objs st ! r)) = Some r)
     \<and> dom (slaveTWCs st) = (\<lambda>r. TWCID (objs st ! r)) ` set (slaveTWCRoundRobin st)"

subsection \<open>The slave link-ready handler of the main loop\<close>

text \<open>
  The regular expression \<^verbatim>\<open>^\xfd\xe2(..)(.)(..)\x00\x00\x00\x00\x00\x00.+\Z\<close> with
  \<^verbatim>\<open>re.DOTALL\<close>: the bytes \<open>FD E2\<close>, two bytes of id, one of sign, two of maxAmps, six zero
  bytes and at least one more byte. The value holds the three groups.
\<close>

definition slave_linkready_match :: "byte list \<Rightarrow> (byte list \<times> byte list \<times> byte list) option" where
  "slave_linkready_match msg =
     (if 14 \<le> length msg \<and> take 2 msg = [0xFD, 0xE2] \<and> take 6 (drop 7 msg) = [0, 0, 0, 0, 0, 0]
      then Some (take 2 (drop 2 msg), take 1 (drop 4 msg), take 2 (drop 5 msg))
      else None)"

text \<open>\<^verbatim>\<open>((msgMatch.group(3)[0] << 8) + msgMatch.group(3)[1]) / 100\<close>\<close>

definition advertised_maxAmps :: "byte list \<Rightarrow> real" where
  "advertised_maxAmps g = real_of_int (push_bit 8 (uint (g ! 0)) + uint (g ! 1)) / 100"

text \<open>Assignment to fields of the session object behind a reference.\<close>

definition update_obj :: "nat \<Rightarrow> (TWCSlave \<Rightarrow> TWCSlave) \<Rightarrow> state \<Rightarrow> state" where
  "update_obj r f st = st\<lparr>objs := (objs st)[r := f (objs st ! r)]\<rparr>"

text \<open>
  The three blocks of the handler that follow the call of \<^verbatim>\<open>new_slave\<close>: the protocol version
  is set from the length of the message, \<^verbatim>\<open>wiringMaxAmps\<close> is lowered when it is greater than
  the advertised \<^verbatim>\<open>maxAmps\<close>, and the time is recorded before \<^verbatim>\<open>send_master_heartbeat\<close> is
  called. \<open>now\<close> is the reading of \<^verbatim>\<open>time.time()\<close> stored in \<^verbatim>\<open>timeLastRx\<close>.
\<close>

definition set_protocol_version :: "nat \<Rightarrow> nat \<Rightarrow> state \<Rightarrow> state" where
  "set_protocol_version slaveTWC len st =
     (if protocolVersion (objs st ! slaveTWC) = 1 \<and> minAmpsTWCSupports (objs st ! slaveTWC) = 6
      then
        (if len = 14 then
           update_obj slaveTWC (\<lambda>s. s\<lparr>protocolVersion := 1, minAmpsTWCSupports := 5\<rparr>) st
         else if len = 16 then
           update_obj slaveTWC (\<lambda>s. s\<lparr>protocolVersion := 2, minAmpsTWCSupports := 6\<rparr>) st
         else st)
      else st)"

definition cap_wiringMaxAmps :: "nat \<Rightarrow> real \<Rightarrow> state \<Rightarrow> state" where
  "cap_wiringMaxAmps slaveTWC a st =
     (if wiringMaxAmps (objs st ! slaveTWC) > a then
        update_obj slaveTWC (\<lambda>s. s\<lparr>wiringMaxAmps := a / 4\<rparr>)
          (st\<lparr>out := out st @ [DangerWiringMax a]\<rparr>)
      else st)"

definition answer_linkready :: "real \<Rightarrow> nat \<Rightarrow> state \<Rightarrow> state" where
  "answer_linkready now slaveTWC st =
     (let st1 = update_obj slaveTWC
                  (\<lambda>s. s\<lparr>lastHeartbeatDebugOutput := [], timeLastRx := now\<rparr>) st
      in st1\<lparr>out := out st1 @ [MasterHeartbeat slaveTWC]\<rparr>)"

text \<open>
  The handler, from the match to the call of \<^verbatim>\<open>send_master_heartbeat\<close>. When the sender's id
  is the master's own, the source evaluates \<^verbatim>\<open>time_now + "..."\<close> with the function \<^verbatim>\<open>time_now\<close>
  itself, which raises \<^verbatim>\<open>TypeError\<close>; the assignments made before it stay. Prints that depend on
  the debug level are left out. A message that does not match is left to the other handlers,
  which are not modelled: the state is returned as it is.
\<close>

definition handle_slave_linkready ::
    "TWCSlave \<Rightarrow> real \<Rightarrow> byte list \<Rightarrow> state \<Rightarrow> error option \<times> state" where
  "handle_slave_linkready init now msg st =
     (case slave_linkready_match msg of
        None \<Rightarrow> (None, st)
      | Some (senderID, sign, g3) \<Rightarrow>
          (let a = advertised_maxAmps g3;
               st1 = st\<lparr>spikeAmpsToCancel6ALimit := (if a \<ge> 80 then 21 else 16)\<rparr>
           in if senderID = fakeTWCID st1 then (Some TypeError, st1)
              else
                (let (slaveTWC, st2) = new_slave init senderID a st1
                 in (None,
                     answer_linkready now slaveTWC
                       (cap_wiringMaxAmps slaveTWC a
                          (set_protocol_version slaveTWC (length msg) st2))))))"

subsection \<open>The periodic part of the main loop\<close>

text \<open>
  \<^verbatim>\<open>send_master_linkready1\<close> and \<^verbatim>\<open>send_master_linkready2\<close> hand their message to \<^verbatim>\<open>send_msg\<close>,
  which writes it and sets \<^verbatim>\<open>timeLastTx\<close> to the clock reading \<open>t\<close>.
\<close>

definition transmit :: "real \<Rightarrow> byte list \<Rightarrow> state \<Rightarrow> state" where
  "transmit t msg st = st\<lparr>out := out st @ [SerialWrite (send_msg msg)], timeLastTx := t\<rparr>"




subsection \<open>Example data\<close>

definition example_slave :: "byte list \<Rightarrow> real \<Rightarrow> TWCSlave" where
  "example_slave i t =
     \<lparr>TWCID = i, maxAmps = 80, protocolVersion = 1, minAmpsTWCSupports = 6,
      wiringMaxAmps = 100, timeLastRx = t, lastHeartbeatDebugOutput = []\<rparr>"

definition example_state :: state where
  "example_state =
     \<lparr>fakeTWCID = [0x77, 0x77], masterSign = [0x77],
      objs = [example_slave [0xAB, 0xCD] 0, example_slave [0x11, 0x22] 0,
              example_slave [0x33, 0x44] 0],
      slaveTWCs = [[0xAB, 0xCD] \<mapsto> 0, [0x11, 0x22] \<mapsto> 1, [0x33, 0x44] \<mapsto> 2],
      slaveTWCRoundRobin = [0, 1, 2],
      idxSlaveToSendNextHeartbeat = 0, numInitMsgsToSend = 0, timeLastTx = 0,
      spikeAmpsToCancel6ALimit = 16, lastTWCResponseMsg = None, out = []\<rparr>"

definition example_linkready :: "byte list" where
  "example_linkready =
     [0xFD, 0xE2, 0xAB, 0xCD, 0x77, 0x1F, 0x40, 0, 0, 0, 0, 0, 0, 0x30]"

subsection \<open>The class \<^verbatim>\<open>TWCMaster\<close>\<close>

text \<open>
  The two dictionaries of sources are lists of key and value in the order of iteration; the
  values are watts.
\<close>

record TWCMaster =
  consumptionValues :: "(string \<times> real) list"
  generationValues :: "(string \<times> real) list"
  subtractChargerLoad :: bool
  totalAmpsInUse :: real

text \<open>\<^verbatim>\<open>for key in self.consumptionValues: consumptionVal += float(self.consumptionValues[key])\<close>\<close>

fun add_values :: "(string \<times> real) list \<Rightarrow> real \<Rightarrow> real" where
  "add_values [] val = val"
| "add_values ((key, v) # kvs) val = add_values kvs (val + v)"

definition getTotalAmpsInUse :: "TWCMaster \<Rightarrow> real" where
  "getTotalAmpsInUse self = totalAmpsInUse self"

definition getChargerLoad :: "TWCMaster \<Rightarrow> real" where
  "getChargerLoad self = getTotalAmpsInUse self * 240"

definition getConsumption :: "TWCMaster \<Rightarrow> real" where
  "getConsumption self =
     (let consumptionVal = add_values (consumptionValues self) 0
      in if consumptionVal < 0 then 0 else consumptionVal)"

definition getGeneration :: "TWCMaster \<Rightarrow> real" where
  "getGeneration self =
     (let generationVal = add_values (generationValues self) 0
      in if generationVal < 0 then 0 else generationVal)"

definition getGenerationOffset :: "TWCMaster \<Rightarrow> real" where
  "getGenerationOffset self =
     (let generationOffset = getConsumption self;
          generationOffset =
            (if subtractChargerLoad self then generationOffset - getChargerLoad self
             else generationOffset)
      in if generationOffset < 0 then 0 else generationOffset)"

definition getMaxAmpsToDivideAmongSlaves :: "TWCMaster \<Rightarrow> real" where
  "getMaxAmpsToDivideAmongSlaves self =
     (let solarW = getGeneration self - getGenerationOffset self;
          solarW = (if solarW < 0 then 0 else solarW)
      in solarW / 240)"

subsection \<open>Requests from the web interface: \<^verbatim>\<open>sendTWCMsg\<close>\<close>

text \<open>
  \<^verbatim>\<open>trim_pad(s, makeLen)\<close>: zeros are appended one at a time while the message is too short,
  then the message is cut when it is too long.
\<close>

function trim_pad_loop :: "byte list \<Rightarrow> nat \<Rightarrow> byte list" where
  "trim_pad_loop s makeLen =
     (if length s < makeLen then trim_pad_loop (s @ [0]) makeLen else s)"
  by pat_completeness auto
termination
  by (relation "measure (\<lambda>(s, makeLen). makeLen - length s)") auto

declare trim_pad_loop.simps [simp del]

definition trim_pad :: "byte list \<Rightarrow> nat \<Rightarrow> byte list" where
  "trim_pad s makeLen =
     (let s1 = trim_pad_loop s makeLen
      in if length s1 > makeLen then take makeLen s1 else s1)"

text \<open>
  The search \<^verbatim>\<open>re.search(b'([0-9a-fA-F]+)', ...)\<close> finds the first longest run of hexadecimal
  digits, if there is one.
\<close>

definition is_hex :: "char \<Rightarrow> bool" where
  "is_hex c =
     (let n = (of_char c :: nat)
      in (48 \<le> n \<and> n \<le> 57) \<or> (97 \<le> n \<and> n \<le> 102) \<or> (65 \<le> n \<and> n \<le> 70))"

definition search_hex :: "string \<Rightarrow> string option" where
  "search_hex s =
     (let r = dropWhile (\<lambda>c. \<not> is_hex c) s
      in if r = [] then None else Some (takeWhile is_hex r))"

definition hex_val :: "char \<Rightarrow> nat" where
  "hex_val c =
     (let n = (of_char c :: nat)
      in if n \<le> 57 then n - 48 else if 97 \<le> n then n - 87 else n - 55)"

text \<open>
  \<^verbatim>\<open>bytearray.fromhex\<close> on a string of hexadecimal digits: two digits give a byte, a digit left
  alone or any other character raises \<^verbatim>\<open>ValueError\<close>. (White space, which \<^verbatim>\<open>fromhex\<close> skips,
  does not occur in the group the search returns.)
\<close>

fun fromhex :: "string \<Rightarrow> error + byte list" where
  "fromhex [] = Inr []"
| "fromhex [c] = Inl ValueError"
| "fromhex (c1 # c2 # cs) =
     (if is_hex c1 \<and> is_hex c2 then
        (case fromhex cs of
           Inl e \<Rightarrow> Inl e
         | Inr bs \<Rightarrow> Inr (of_nat (hex_val c1 * 16 + hex_val c2) # bs))
      else Inl ValueError)"

text \<open>
  The length the frame is made:
  \<^verbatim>\<open>15 if len(slaveTWCRoundRobin) == 0 or slaveTWCRoundRobin[0].protocolVersion == 2 else 13\<close>.
\<close>

definition sendTWCMsg_len :: "state \<Rightarrow> nat" where
  "sendTWCMsg_len st =
     (if length (slaveTWCRoundRobin st) = 0
         \<or> protocolVersion (objs st ! (slaveTWCRoundRobin st ! 0)) = 2
      then 15 else 13)"

text \<open>
  The frame \<^verbatim>\<open>twcMsg\<close> of a request: \<open>None\<close> when the search finds no digit, an error when
  \<^verbatim>\<open>fromhex\<close> raises.
\<close>

definition sendTWCMsg_frame :: "string \<Rightarrow> state \<Rightarrow> (error + byte list) option" where
  "sendTWCMsg_frame webMsg st =
     (case search_hex (drop 11 webMsg) of
        None \<Rightarrow> None
      | Some h \<Rightarrow>
          (case fromhex h of
             Inl e \<Rightarrow> Some (Inl e)
           | Inr bs \<Rightarrow> Some (Inr (trim_pad bs (sendTWCMsg_len st)))))"

text \<open>
  The branch of the main loop taken when \<^verbatim>\<open>webMsg[0:11] == b'sendTWCMsg='\<close>. \<open>t\<close> is the clock
  reading \<^verbatim>\<open>send_msg\<close> stores in \<^verbatim>\<open>timeLastTx\<close>.
\<close>

definition handle_sendTWCMsg :: "real \<Rightarrow> string \<Rightarrow> state \<Rightarrow> error option \<times> state" where
  "handle_sendTWCMsg t webMsg st =
     (case sendTWCMsg_frame webMsg st of
        None \<Rightarrow> (None, st)
      | Some (Inl e) \<Rightarrow> (Some e, st)
      | Some (Inr twcMsg) \<Rightarrow>
          (if take 2 twcMsg = [0xFC, 0x19] \<or> take 2 twcMsg = [0xFC, 0x1A] then
             (None, st\<lparr>out := out st @ [AbortCouldDisable twcMsg]\<rparr>)
           else if take 2 twcMsg = [0xFB, 0xE8] then
             (None, st\<lparr>out := out st @ [AbortCouldCrash twcMsg]\<rparr>)
           else (None, transmit t twcMsg (st\<lparr>lastTWCResponseMsg := Some []\<rparr>))))"

subsection \<open>Responses to the web interface\<close>

text \<open>\<^verbatim>\<open>hex_str(ba)\<close>: \<^verbatim>\<open>" ".join("{:02X}".format(c) for c in ba)\<close>\<close>

definition hex_digit :: "nat \<Rightarrow> char" where
  "hex_digit n = (if n < 10 then char_of (48 + n) else char_of (55 + n))"

definition hex_byte :: "byte \<Rightarrow> string" where
  "hex_byte c = [hex_digit (unat c div 16), hex_digit (unat c mod 16)]"

fun join_space :: "string list \<Rightarrow> string" where
  "join_space [] = []"
| "join_space [x] = x"
| "join_space (x # y # zs) = x @ [CHR '' ''] @ join_space (y # zs)"

definition hex_str :: "byte list \<Rightarrow> string" where
  "hex_str ba = join_space (map hex_byte ba)"

text \<open>
  The branch for \<^verbatim>\<open>getLastTWCMsgResponse\<close>: the response text and \<^verbatim>\<open>numPackets\<close>, which keeps
  its initial value 0.
\<close>

definition web_getLastTWCMsgResponse :: "state \<Rightarrow> string \<times> nat" where
  "web_getLastTWCMsgResponse st =
     (case lastTWCResponseMsg st of
        None \<Rightarrow> (''None'', 0)
      | Some m \<Rightarrow> (if m \<noteq> [] then (hex_str m, 0) else (''None'', 0)))"

text \<open>
  The branch for \<^verbatim>\<open>dumpState\<close>. Its second statement reads the name
  \<^verbatim>\<open>carApiStopAskingToStartCharging\<close>, which is bound nowhere in the program: the branch
  raises \<^verbatim>\<open>NameError\<close> before it reaches
  \<^verbatim>\<open>numPackets = math.ceil(len(webResponseMsg) / 290)\<close>, the only assignment to \<^verbatim>\<open>numPackets\<close>
  other than \<^verbatim>\<open>numPackets = 0\<close>.
\<close>

definition web_dumpState :: "error + string \<times> nat" where
  "web_dumpState = Inl NameError"

text \<open>
  What the chain of branches leaves in \<^verbatim>\<open>webResponseMsg\<close> and \<^verbatim>\<open>numPackets\<close>. The text of
  \<^verbatim>\<open>getStatus\<close> is put together from formatted numbers; it is given as \<open>statusText\<close>. The
  other branches assign neither variable, so that both have their initial values when such a
  branch is done.
\<close>

definition web_response :: "string \<Rightarrow> string \<Rightarrow> state \<Rightarrow> error + string \<times> nat" where
  "web_response statusText webMsg st =
     (if webMsg = ''getStatus'' then Inr (statusText, 0)
      else if webMsg = ''getLastTWCMsgResponse'' then Inr (web_getLastTWCMsgResponse st)
      else if webMsg = ''dumpState'' then web_dumpState
      else Inr ([], 0))"

text \<open>
  A message put on the queue: \<^verbatim>\<open>webMsgTime\<close>, \<^verbatim>\<open>webMsgID\<close> and the bytes after them, 6 bytes
  and the length of the text in all. \<^verbatim>\<open>encode('ascii')\<close> raises \<^verbatim>\<open>UnicodeEncodeError\<close> on a
  character that is not ASCII.
\<close>

type_synonym ipc_msg = "32 word \<times> 16 word \<times> string"

definition is_ascii :: "string \<Rightarrow> bool" where
  "is_ascii s = list_all (\<lambda>c. (of_char c :: nat) < 128) s"

text \<open>
  How the block that sends the response ends: all sent, \<^verbatim>\<open>sysv_ipc.BusyError\<close> caught and
  reported by the block itself, or another exception raised.
\<close>

datatype outcome = Done | Busy | Raised error

text \<open>
  \<^verbatim>\<open>for i in range(0, numPackets)\<close>: the packet \<^verbatim>\<open>webResponseMsg[i*290:i*290+290]\<close> is encoded
  and sent with \<^verbatim>\<open>block=False\<close>. \<open>free\<close> is the number of bytes the queue still takes; a
  message that does not fit raises \<^verbatim>\<open>BusyError\<close>, which ends the loop. The value is how the
  loop ends and the messages sent.
\<close>

fun send_packets ::
    "32 word \<Rightarrow> 16 word \<Rightarrow> string \<Rightarrow> nat \<Rightarrow> nat list \<Rightarrow> outcome \<times> ipc_msg list" where
  "send_packets webMsgTime webMsgID webResponseMsg free [] = (Done, [])"
| "send_packets webMsgTime webMsgID webResponseMsg free (i # is) =
     (let packet = take 290 (drop (i * 290) webResponseMsg)
      in if \<not> is_ascii packet then (Raised UnicodeEncodeError, [])
         else if 6 + length packet \<le> free then
           (case send_packets webMsgTime webMsgID webResponseMsg
                   (free - (6 + length packet)) is of
              (r, ms) \<Rightarrow> (r, (webMsgTime, webMsgID, packet) # ms))
         else (Busy, []))"

text \<open>
  The block that sends the response, \<^verbatim>\<open>if(len(webResponseMsg) > 0): ...\<close>.
  \<^verbatim>\<open>bytearray([numPackets])\<close> raises \<^verbatim>\<open>ValueError\<close> when \<^verbatim>\<open>numPackets\<close> is above 255.
\<close>

definition send_web_response ::
    "32 word \<Rightarrow> 16 word \<Rightarrow> nat \<Rightarrow> string \<times> nat \<Rightarrow> outcome \<times> ipc_msg list" where
  "send_web_response webMsgTime webMsgID free r =
     (let webResponseMsg = fst r; numPackets = snd r
      in if length webResponseMsg > 0 then
           (if numPackets = 0 then
              (let webResponseMsg1 =
                     (if length webResponseMsg > 290 then take 290 webResponseMsg
                      else webResponseMsg)
               in if \<not> is_ascii webResponseMsg1 then (Raised UnicodeEncodeError, [])
                  else if 6 + length webResponseMsg1 \<le> free
                  then (Done, [(webMsgTime, webMsgID, webResponseMsg1)])
                  else (Busy, []))
            else if numPackets > 255 then (Raised ValueError, [])
            else if 6 + 1 \<le> free then
              (case send_packets webMsgTime webMsgID webResponseMsg (free - (6 + 1))
                      [0..<numPackets] of
                 (r, ms) \<Rightarrow> (r, (webMsgTime, webMsgID, [char_of numPackets]) # ms))
            else (Busy, []))
         else (Done, []))"

definition example_response :: "byte list" where
  "example_response = replicate 98 0"

definition example_text :: string where
  "example_text = replicate 291 (CHR ''a'')"

section \<open>Properties of the frame codec\<close>

lemma escape_loop_esc: "escape_loop (length pre) (pre @ xs) = pre @ esc xs"
proof (induction xs arbitrary: pre)
  case Nil
  show ?case by (subst escape_loop.simps) simp
next
  case (Cons x xs)
  have a: "escape_loop (length (pre @ [0xDB, 0xDC])) ((pre @ [0xDB, 0xDC]) @ xs)
             = (pre @ [0xDB, 0xDC]) @ esc xs"
    by (rule Cons.IH)
  have b: "escape_loop (length (pre @ [0xDB, 0xDD])) ((pre @ [0xDB, 0xDD]) @ xs)
             = (pre @ [0xDB, 0xDD]) @ esc xs"
    by (rule Cons.IH)
  have c: "escape_loop (length (pre @ [x])) ((pre @ [x]) @ xs) = (pre @ [x]) @ esc xs"
    by (rule Cons.IH)
  show ?case
    using a b c by (subst escape_loop.simps) (simp add: nth_append)
qed

lemma unescape_loop_esc:
  "unescape_loop (length pre) (pre @ esc xs @ [0xC0]) = Inr (pre @ xs @ [0xC0])"
proof (induction xs arbitrary: pre)
  case Nil
  have "unescape_loop (Suc (length pre)) (pre @ [0xC0]) = Inr (pre @ [0xC0])"
    by (subst unescape_loop.simps) simp
  then show ?case by (subst unescape_loop.simps) (simp add: nth_append)
next
  case (Cons x xs)
  have c: "unescape_loop (length (pre @ [x])) ((pre @ [x]) @ esc xs @ [0xC0])
             = Inr ((pre @ [x]) @ xs @ [0xC0])"
    by (rule Cons.IH)
  show ?case
    using c by (subst unescape_loop.simps) (auto simp add: nth_append)
qed

lemma send_msg_esc: "send_msg f = [0xC0] @ esc (f @ [checksum_byte f]) @ [0xC0]"
  using escape_loop_esc [of "[]" "f @ [checksum_byte f]"]
  by (simp add: send_msg_def checksum_byte_def)

lemma unescape_loop_start: "unescape_loop 0 (0xC0 # rest) = unescape_loop (Suc 0) (0xC0 # rest)"
  by (subst unescape_loop.simps) simp

lemma unescape_send_msg:
  "unescape_msg (send_msg f) (length (send_msg f)) = Inr (f @ [checksum_byte f])"
  using unescape_loop_esc [of "[0xC0]" "f @ [checksum_byte f]"]
  by (simp add: unescape_msg_def send_msg_esc unescape_loop_start)

lemma uint_low_byte: "uint (word_of_int (c AND 0xFF) :: byte) = c AND 0xFF"
  by (simp add: uint_word_of_int_eq take_bit_eq_mask mask_eq_exp_minus_1)

lemma checksum_verifies_appended: "checksum_verifies (f @ [checksum_byte f]) = Inr True"
  by (simp add: checksum_verifies_def checksum_byte_def uint_low_byte)

text \<open>
  Claim C1. For every payload \<open>f\<close>, the bytes that \<^verbatim>\<open>send_msg\<close> writes (checksum over all
  bytes but the first appended, \<open>0xC0\<close> and \<open>0xDB\<close> escaped, \<open>0xC0\<close> delimiters added),
  decoded by \<^verbatim>\<open>unescape_msg\<close> over their whole length, give back \<open>f\<close> followed by its checksum
  byte, and the receive-side comparison of the truncated sum with the last byte succeeds.
\<close>

theorem C1_send_unescape_roundtrip:
  "unescape_msg (send_msg f) (length (send_msg f)) = Inr (f @ [checksum_byte f])
   \<and> checksum_verifies (f @ [checksum_byte f]) = Inr True"
  by (simp add: unescape_send_msg checksum_verifies_appended)

text \<open>
  On a bytearray whose last byte is \<open>0xC0\<close>, as every buffer is that the receive loop hands
  over, the loop of \<^verbatim>\<open>unescape_msg\<close> never reads past the end.
\<close>

lemma unescape_loop_returns:
  "(i < length msg \<longrightarrow> last msg = 0xC0) \<Longrightarrow> \<exists>m. unescape_loop i msg = Inr m"
proof (induction i msg rule: unescape_loop.induct)
  case (1 i msg)
  show ?case
  proof (cases "i < length msg")
    case False
    then show ?thesis by (subst unescape_loop.simps) simp
  next
    case True
    with "1.prems" have lst: "last msg = 0xC0" by simp
    show ?thesis
    proof (cases "msg ! i = 0xDB")
      case False
      with True "1.IH"(4) lst show ?thesis
        by (subst unescape_loop.simps) simp
    next
      case db: True
      have "i \<noteq> length msg - 1"
      proof
        assume "i = length msg - 1"
        moreover from True have "msg \<noteq> []" by auto
        ultimately have "msg ! i = last msg" by (simp add: last_conv_nth)
        with db lst show False by simp
      qed
      with True have i1: "i + 1 < length msg" by arith
      have keep: "\<And>x. i + 1 < length (take i msg @ [x] @ drop (i + 2) msg) \<longrightarrow>
                     last (take i msg @ [x] @ drop (i + 2) msg) = 0xC0"
        using lst i1 by (auto simp add: last_drop)
      from "1.IH"(1) [OF True db i1 _ keep] "1.IH"(2) [OF True db i1 _ _ keep]
           "1.IH"(3) [OF True db i1 _ _ keep] True db i1
      show ?thesis
        by (subst unescape_loop.simps) auto
    qed
  qed
qed

lemma unescape_msg_bytearray_returns:
  "last (take msgLen msg) = 0xC0 \<Longrightarrow> \<exists>m. unescape_msg msg msgLen = Inr m"
  using unescape_loop_returns [of 0 "take msgLen msg"]
  by (auto simp add: unescape_msg_def)

lemma unescape_scan_bytes_iff: "unescape_scan_bytes bs \<noteq> None \<longleftrightarrow> 0xDB \<in> set bs"
  by (induction bs) auto

lemma example_stream_buffer:
  "rx_loop example_stream (Bytearray [], 0) = Some (Bytes example_frame, 17)"
  by (simp add: example_stream_def example_frame_def rx_byte_def buffer_append_def)

text \<open>
  Claim C3. The claim says that \<^verbatim>\<open>unescape_msg\<close> returns normally on every input and never
  stops with an error. When the program begins to listen at the end of a message, the bytes
  \<open>C0 FE\<close> of that message make the receive loop start the next message with \<^verbatim>\<open>msg = data\<close>,
  a \<^verbatim>\<open>bytes\<close> object; the heartbeat that follows holds the escape \<open>DB DC\<close>, and
  \<^verbatim>\<open>unescape_msg\<close> raises \<^verbatim>\<open>TypeError\<close> at its assignment instead of returning.
\<close>

theorem C3_unescape_raises_on_bytes_buffer:
  "rx_loop example_stream (Bytearray [], 0) = Some (Bytes example_frame, 17)
   \<and> unescape_msg_buffer (Bytes example_frame) 17 = Inl TypeError
   \<and> receive_message example_stream (Bytearray [], 0) = Some (Inl TypeError)"
proof -
  have u: "unescape_msg_buffer (Bytes example_frame) 17 = Inl TypeError"
    by (simp add: unescape_msg_buffer_def example_frame_def)
  show ?thesis
    by (simp add: receive_message_def example_stream_buffer u)
qed

section \<open>Properties of the slave registry\<close>

lemma consistent_lookup:
  "registry_consistent st \<Longrightarrow> r \<in> set (slaveTWCRoundRobin st) \<Longrightarrow>
   slaveTWCs st (TWCID (objs st ! r)) = Some r"
  by (simp add: registry_consistent_def)

lemma consistent_inj:
  assumes "registry_consistent st"
  shows "inj_on (\<lambda>r. TWCID (objs st ! r)) (set (slaveTWCRoundRobin st))"
proof (rule inj_onI)
  fix x y
  assume x: "x \<in> set (slaveTWCRoundRobin st)" and y: "y \<in> set (slaveTWCRoundRobin st)"
    and eq: "TWCID (objs st ! x) = TWCID (objs st ! y)"
  have "Some x = slaveTWCs st (TWCID (objs st ! x))"
    using consistent_lookup [OF assms x] by simp
  also have "\<dots> = Some y"
    using consistent_lookup [OF assms y] eq by simp
  finally show "x = y" by simp
qed

lemma delete_first_filter:
  "distinct (map (\<lambda>r. TWCID (os ! r)) rs) \<Longrightarrow>
   delete_first os d rs = filter (\<lambda>r. TWCID (os ! r) \<noteq> d) rs"
proof (induction rs)
  case Nil
  then show ?case by simp
next
  case (Cons r rs)
  from Cons.prems have notin: "TWCID (os ! r) \<notin> (\<lambda>r. TWCID (os ! r)) ` set rs"
    and dist: "distinct (map (\<lambda>r. TWCID (os ! r)) rs)"
    by simp_all
  show ?case
  proof (cases "TWCID (os ! r) = d")
    case True
    have "\<forall>x \<in> set rs. TWCID (os ! x) \<noteq> d"
    proof
      fix x assume "x \<in> set rs"
      then have "TWCID (os ! x) \<in> (\<lambda>r. TWCID (os ! r)) ` set rs" by (rule imageI)
      with notin True show "TWCID (os ! x) \<noteq> d" by metis
    qed
    then have "filter (\<lambda>r. TWCID (os ! r) \<noteq> d) rs = rs" by (simp add: filter_id_conv)
    with True show ?thesis by simp
  next
    case False
    with Cons.IH [OF dist] show ?thesis by simp
  qed
qed

lemma delete_slave_consistent:
  assumes "registry_consistent st"
  shows "registry_consistent (delete_slave d st)"
proof -
  let ?f = "\<lambda>r. TWCID (objs st ! r)"
  have dist: "distinct (map ?f (slaveTWCRoundRobin st))"
    using assms consistent_inj [OF assms] by (simp add: distinct_map registry_consistent_def)
  have rr: "slaveTWCRoundRobin (delete_slave d st) = filter (\<lambda>r. ?f r \<noteq> d) (slaveTWCRoundRobin st)"
    by (simp add: delete_slave_def delete_first_filter [OF dist])
  have o: "objs (delete_slave d st) = objs st" by (simp add: delete_slave_def)
  have m: "slaveTWCs (delete_slave d st) = (slaveTWCs st)(d := None)" by (simp add: delete_slave_def)
  show ?thesis
    unfolding registry_consistent_def rr o m
    using assms by (auto simp add: registry_consistent_def)
qed

lemma length_delete_first: "length (delete_first os d rs) \<le> length rs"
  by (induction rs) auto


lemma consistent_out [simp]: "registry_consistent (st\<lparr>out := x\<rparr>) = registry_consistent st"
  by (simp add: registry_consistent_def)

lemma append_consistent:
  assumes c: "registry_consistent st" and n: "slaveTWCs st newSlaveID = None"
  shows "registry_consistent
           (st\<lparr>objs := objs st @ [TWCSlave_new init newSlaveID a],
               slaveTWCs := (slaveTWCs st)(newSlaveID \<mapsto> length (objs st)),
               slaveTWCRoundRobin := slaveTWCRoundRobin st @ [length (objs st)]\<rparr>)"
proof -
  let ?rr = "slaveTWCRoundRobin st"
  have lt: "\<And>r. r \<in> set ?rr \<Longrightarrow> r < length (objs st)"
    using c by (simp add: registry_consistent_def)
  have lk: "\<And>r. r \<in> set ?rr \<Longrightarrow> slaveTWCs st (TWCID (objs st ! r)) = Some r"
    using c by (simp add: registry_consistent_def)
  have ne: "\<And>r. r \<in> set ?rr \<Longrightarrow> TWCID (objs st ! r) \<noteq> newSlaveID"
    using lk n by force
  have fresh: "length (objs st) \<notin> set ?rr"
    using lt by blast
  have d: "dom (slaveTWCs st) = (\<lambda>r. TWCID (objs st ! r)) ` set ?rr"
    using c by (simp add: registry_consistent_def)
  have img: "(\<lambda>r. TWCID ((objs st @ [TWCSlave_new init newSlaveID a]) ! r)) ` set ?rr
               = (\<lambda>r. TWCID (objs st ! r)) ` set ?rr"
    by (rule image_cong) (simp_all add: nth_append lt)
  have lt': "\<And>r. r \<in> set ?rr \<Longrightarrow> r < Suc (length (objs st))"
    using lt by (simp add: less_Suc_eq)
  show ?thesis
    unfolding registry_consistent_def
    using c fresh
    by (simp add: img d nth_append lt lt' lk ne TWCSlave_new_def registry_consistent_def)
qed

lemma new_slave_consistent:
  assumes c: "registry_consistent st"
  shows "registry_consistent (snd (new_slave init newSlaveID a st))"
proof (cases "slaveTWCs st newSlaveID")
  case (Some r)
  with c show ?thesis by (simp add: new_slave_def)
next
  case None
  from append_consistent [OF c None, of init a]
  show ?thesis
    using None by (simp add: new_slave_def Let_def delete_slave_consistent)
qed

lemma new_slave_length:
  assumes "length (slaveTWCRoundRobin st) \<le> 3"
  shows "length (slaveTWCRoundRobin (snd (new_slave init newSlaveID a st))) \<le> 3"
proof (cases "slaveTWCs st newSlaveID")
  case (Some r)
  with assms show ?thesis by (simp add: new_slave_def)
next
  case None
  show ?thesis
  proof (cases "slaveTWCRoundRobin st")
    case Nil
    with None show ?thesis by (simp add: new_slave_def Let_def)
  next
    case (Cons r rs)
    with None assms show ?thesis
      by (simp add: new_slave_def Let_def delete_slave_def nth_append)
  qed
qed

lemma new_slave_evicts_head:
  assumes c: "registry_consistent st" and n: "slaveTWCs st newSlaveID = None"
    and l: "length (slaveTWCRoundRobin st) = 3"
  shows "slaveTWCRoundRobin (snd (new_slave init newSlaveID a st))
           = tl (slaveTWCRoundRobin st) @ [fst (new_slave init newSlaveID a st)]
         \<and> slaveTWCs (snd (new_slave init newSlaveID a st))
               (TWCID (objs st ! hd (slaveTWCRoundRobin st))) = None
         \<and> out (snd (new_slave init newSlaveID a st))
             = out st @ [WarnDroppingOldest (TWCID (objs st ! hd (slaveTWCRoundRobin st)))]"
proof -
  from l obtain r rs where rr: "slaveTWCRoundRobin st = r # rs"
    by (cases "slaveTWCRoundRobin st") auto
  from c rr have lt: "r < length (objs st)"
    by (simp add: registry_consistent_def)
  show ?thesis
    using n l rr lt
    by (simp add: new_slave_def Let_def delete_slave_def nth_append)
qed


lemma example_consistent: "registry_consistent example_state"
  by (auto simp add: registry_consistent_def example_state_def example_slave_def)

text \<open>
  Claim C6. If the two views of the registry agree and the list holds at most 3 sessions, then
  after \<^verbatim>\<open>new_slave\<close> the list again holds at most 3 sessions and the two views agree; and when
  the id is new and 3 sessions are held, the head of the round-robin list is the one removed,
  from the list and from the dictionary, with the warning printed.
\<close>

theorem C6_new_slave_at_most_three:
  assumes "registry_consistent st" and "length (slaveTWCRoundRobin st) \<le> 3"
  shows "length (slaveTWCRoundRobin (snd (new_slave init newSlaveID a st))) \<le> 3
         \<and> registry_consistent (snd (new_slave init newSlaveID a st))
         \<and> (slaveTWCs st newSlaveID = None \<and> length (slaveTWCRoundRobin st) = 3 \<longrightarrow>
              slaveTWCRoundRobin (snd (new_slave init newSlaveID a st))
                = tl (slaveTWCRoundRobin st) @ [fst (new_slave init newSlaveID a st)]
              \<and> slaveTWCs (snd (new_slave init newSlaveID a st))
                    (TWCID (objs st ! hd (slaveTWCRoundRobin st))) = None
              \<and> out (snd (new_slave init newSlaveID a st))
                  = out st @ [WarnDroppingOldest (TWCID (objs st ! hd (slaveTWCRoundRobin st)))])"
  using assms new_slave_length new_slave_consistent new_slave_evicts_head by blast

theorem C6_new_slave_at_most_three_witness:
  "registry_consistent example_state
   \<and> length (slaveTWCRoundRobin example_state) \<le> 3
   \<and> slaveTWCs example_state [0x55, 0x66] = None
   \<and> length (slaveTWCRoundRobin example_state) = 3
   \<and> slaveTWCRoundRobin (snd (new_slave (example_slave [] 0) [0x55, 0x66] 80 example_state))
       = [1, 2, 3]
   \<and> registry_consistent (snd (new_slave (example_slave [] 0) [0x55, 0x66] 80 example_state))
   \<and> out (snd (new_slave (example_slave [] 0) [0x55, 0x66] 80 example_state))
       = [WarnDroppingOldest [0xAB, 0xCD]]"
proof -
  have h1: "registry_consistent example_state" by (rule example_consistent)
  have h2: "length (slaveTWCRoundRobin example_state) \<le> 3" by (simp add: example_state_def)
  have h3: "slaveTWCs example_state [0x55, 0x66] = None" by (simp add: example_state_def)
  have h4: "length (slaveTWCRoundRobin example_state) = 3" by (simp add: example_state_def)
  have f: "fst (new_slave (example_slave [] 0) [0x55, 0x66] 80 example_state) = 3"
    by (simp add: new_slave_def example_state_def Let_def)
  have t: "tl (slaveTWCRoundRobin example_state) = [1, 2]" by (simp add: example_state_def)
  have o: "out example_state = []" "TWCID (objs example_state ! hd (slaveTWCRoundRobin example_state)) = [0xAB, 0xCD]"
    by (simp_all add: example_state_def example_slave_def)
  from C6_new_slave_at_most_three [OF h1 h2, of "example_slave [] 0" "[0x55, 0x66]" 80]
  show ?thesis using h1 h2 h3 h4 f t o by simp
qed

text \<open>
  Claim C10. When the id is already a key of the dictionary, \<^verbatim>\<open>new_slave\<close> returns the session
  stored under it and changes nothing: membership, round-robin order and every field of every
  session, the recorded \<^verbatim>\<open>maxAmps\<close> included, are as before, whatever \<^verbatim>\<open>maxAmps\<close> is passed.
\<close>

theorem C10_new_slave_existing_unchanged:
  "slaveTWCs st newSlaveID = Some r \<Longrightarrow> new_slave init newSlaveID a st = (r, st)"
  by (simp add: new_slave_def)

theorem C10_new_slave_existing_unchanged_witness:
  "slaveTWCs example_state [0xAB, 0xCD] = Some 0
   \<and> new_slave (example_slave [] 0) [0xAB, 0xCD] 32 example_state = (0, example_state)
   \<and> maxAmps (objs example_state ! 0) = 80"
proof -
  have h: "slaveTWCs example_state [0xAB, 0xCD] = Some 0" by (simp add: example_state_def)
  have m: "maxAmps (objs example_state ! 0) = 80" by (simp add: example_state_def example_slave_def)
  from C10_new_slave_existing_unchanged [OF h, of "example_slave [] 0" 32]
  show ?thesis using h m by simp
qed

section \<open>Properties of the slave link-ready handler\<close>

lemma delete_slave_fields [simp]:
  "objs (delete_slave d st) = objs st"
  "spikeAmpsToCancel6ALimit (delete_slave d st) = spikeAmpsToCancel6ALimit st"
  "out (delete_slave d st) = out st"
  "fakeTWCID (delete_slave d st) = fakeTWCID st"
  by (simp_all add: delete_slave_def)

lemma update_obj_fields [simp]:
  "spikeAmpsToCancel6ALimit (update_obj r f st) = spikeAmpsToCancel6ALimit st"
  "slaveTWCs (update_obj r f st) = slaveTWCs st"
  "slaveTWCRoundRobin (update_obj r f st) = slaveTWCRoundRobin st"
  "out (update_obj r f st) = out st"
  "length (objs (update_obj r f st)) = length (objs st)"
  by (simp_all add: update_obj_def)

lemma update_obj_nth:
  "r < length (objs st) \<Longrightarrow> objs (update_obj r f st) ! r = f (objs st ! r)"
  by (simp add: update_obj_def)

lemma new_slave_spike:
  "spikeAmpsToCancel6ALimit (snd (new_slave init i a st)) = spikeAmpsToCancel6ALimit st"
  by (simp add: new_slave_def Let_def split: option.splits)

lemma set_protocol_version_spike [simp]:
  "spikeAmpsToCancel6ALimit (set_protocol_version r n st) = spikeAmpsToCancel6ALimit st"
  by (simp add: set_protocol_version_def)

lemma cap_wiringMaxAmps_spike [simp]:
  "spikeAmpsToCancel6ALimit (cap_wiringMaxAmps r a st) = spikeAmpsToCancel6ALimit st"
  by (simp add: cap_wiringMaxAmps_def)

lemma answer_linkready_spike [simp]:
  "spikeAmpsToCancel6ALimit (answer_linkready now r st) = spikeAmpsToCancel6ALimit st"
  by (simp add: answer_linkready_def Let_def)

lemma adv_nonneg: "0 \<le> advertised_maxAmps g"
proof -
  have "0 \<le> push_bit 8 (uint (g ! 0)) + uint (g ! 1)"
    by (simp add: push_bit_eq_mult)
  then have "0 \<le> real_of_int (push_bit 8 (uint (g ! 0)) + uint (g ! 1))"
    by (simp only: of_int_0_le_iff)
  then show ?thesis
    unfolding advertised_maxAmps_def by (rule divide_nonneg_nonneg) simp
qed

lemma consistent_ran:
  assumes c: "registry_consistent st" and l: "slaveTWCs st i = Some r"
  shows "r \<in> set (slaveTWCRoundRobin st) \<and> r < length (objs st) \<and> TWCID (objs st ! r) = i"
proof -
  from l have "i \<in> dom (slaveTWCs st)" by blast
  with c have "i \<in> (\<lambda>r. TWCID (objs st ! r)) ` set (slaveTWCRoundRobin st)"
    by (simp add: registry_consistent_def)
  then obtain r' where r': "r' \<in> set (slaveTWCRoundRobin st)" and i: "i = TWCID (objs st ! r')"
    by blast
  from consistent_lookup [OF c r'] i l have "r = r'" by simp
  moreover from c r' have "r' < length (objs st)" by (simp add: registry_consistent_def)
  ultimately show ?thesis using r' i by simp
qed

lemma new_slave_session:
  assumes c: "registry_consistent st"
  shows "slaveTWCs (snd (new_slave init i a st)) i = Some (fst (new_slave init i a st))
         \<and> fst (new_slave init i a st) < length (objs (snd (new_slave init i a st)))
         \<and> wiringMaxAmps (objs (snd (new_slave init i a st)) ! fst (new_slave init i a st))
             = (case slaveTWCs st i of
                  Some r0 \<Rightarrow> wiringMaxAmps (objs st ! r0)
                | None \<Rightarrow> wiringMaxAmps init)"
proof (cases "slaveTWCs st i")
  case (Some r0)
  with consistent_ran [OF c Some] show ?thesis by (simp add: new_slave_def)
next
  case None
  show ?thesis
  proof (cases "slaveTWCRoundRobin st")
    case Nil
    with None show ?thesis by (simp add: new_slave_def Let_def TWCSlave_new_def)
  next
    case (Cons r rs)
    then have r: "r \<in> set (slaveTWCRoundRobin st)" by simp
    from c r have lt: "r < length (objs st)" by (simp add: registry_consistent_def)
    from consistent_lookup [OF c r] None have ne: "TWCID (objs st ! r) \<noteq> i" by force
    from None Cons lt ne show ?thesis
      by (simp add: new_slave_def Let_def TWCSlave_new_def delete_slave_def nth_append)
  qed
qed

lemma new_slave_spike_commute:
  "new_slave init i a (st\<lparr>spikeAmpsToCancel6ALimit := x\<rparr>)
     = (fst (new_slave init i a st), (snd (new_slave init i a st))\<lparr>spikeAmpsToCancel6ALimit := x\<rparr>)"
  by (simp add: new_slave_def Let_def delete_slave_def split: option.splits)

lemma set_protocol_version_keeps:
  "slaveTWCs (set_protocol_version r n st) = slaveTWCs st"
  "length (objs (set_protocol_version r n st)) = length (objs st)"
  by (simp_all add: set_protocol_version_def)

lemma set_protocol_version_wiring:
  "wiringMaxAmps (objs (set_protocol_version r n st) ! r) = wiringMaxAmps (objs st ! r)"
proof (cases "r < length (objs st)")
  case True
  then show ?thesis by (simp add: set_protocol_version_def update_obj_def)
next
  case False
  then show ?thesis by (simp add: set_protocol_version_def update_obj_def list_update_beyond)
qed

lemma cap_wiringMaxAmps_keeps:
  "slaveTWCs (cap_wiringMaxAmps r a st) = slaveTWCs st"
  "length (objs (cap_wiringMaxAmps r a st)) = length (objs st)"
  by (simp_all add: cap_wiringMaxAmps_def)

lemma cap_wiringMaxAmps_quarter:
  "r < length (objs st) \<Longrightarrow> wiringMaxAmps (objs st ! r) > a \<Longrightarrow>
   wiringMaxAmps (objs (cap_wiringMaxAmps r a st) ! r) = a / 4"
  by (simp add: cap_wiringMaxAmps_def update_obj_def)

lemma answer_linkready_keeps:
  "slaveTWCs (answer_linkready now r st) = slaveTWCs st"
  "length (objs (answer_linkready now r st)) = length (objs st)"
  by (simp_all add: answer_linkready_def Let_def)

lemma answer_linkready_wiring:
  "wiringMaxAmps (objs (answer_linkready now r st) ! r) = wiringMaxAmps (objs st ! r)"
proof (cases "r < length (objs st)")
  case True
  then show ?thesis by (simp add: answer_linkready_def update_obj_def Let_def)
next
  case False
  then show ?thesis by (simp add: answer_linkready_def update_obj_def list_update_beyond Let_def)
qed

text \<open>
  Claim C2, as amended. When a slave link-ready is processed for a sender other than the master
  itself, and the \<^verbatim>\<open>wiringMaxAmps\<close> of the sender's session (the stored session, or the newly
  created one) is greater than the advertised \<^verbatim>\<open>maxAmps\<close>, then afterwards the session's
  \<^verbatim>\<open>wiringMaxAmps\<close> is a quarter of the advertised \<^verbatim>\<open>maxAmps\<close>, which is not greater than the
  advertised \<^verbatim>\<open>maxAmps\<close>.
\<close>

theorem C2_wiringMaxAmps_set_to_quarter:
  assumes c: "registry_consistent st"
    and m: "slave_linkready_match msg = Some (senderID, sign, g3)"
    and ne: "senderID \<noteq> fakeTWCID st"
    and gt: "(case slaveTWCs st senderID of
                Some r0 \<Rightarrow> wiringMaxAmps (objs st ! r0)
              | None \<Rightarrow> wiringMaxAmps init) > advertised_maxAmps g3"
  shows "fst (handle_slave_linkready init now msg st) = None
         \<and> (\<exists>r. slaveTWCs (snd (handle_slave_linkready init now msg st)) senderID = Some r
                \<and> r < length (objs (snd (handle_slave_linkready init now msg st)))
                \<and> wiringMaxAmps (objs (snd (handle_slave_linkready init now msg st)) ! r)
                    = advertised_maxAmps g3 / 4)
         \<and> advertised_maxAmps g3 / 4 \<le> advertised_maxAmps g3"
proof -
  let ?a = "advertised_maxAmps g3"
  let ?x = "if ?a \<ge> 80 then 21 else 16 :: int"
  let ?r = "fst (new_slave init senderID ?a st)"
  let ?st2 = "(snd (new_slave init senderID ?a st))\<lparr>spikeAmpsToCancel6ALimit := ?x\<rparr>"
  let ?st3 = "set_protocol_version ?r (length msg) ?st2"
  let ?st4 = "cap_wiringMaxAmps ?r ?a ?st3"
  let ?st5 = "answer_linkready now ?r ?st4"
  have h: "handle_slave_linkready init now msg st = (None, ?st5)"
    using m ne
    by (simp add: handle_slave_linkready_def Let_def new_slave_spike_commute)
  note s = new_slave_session [OF c, of init senderID ?a]
  have l2: "?r < length (objs ?st2)" and w2: "wiringMaxAmps (objs ?st2 ! ?r) > ?a"
    and k2: "slaveTWCs ?st2 senderID = Some ?r"
    using s gt by simp_all
  have l3: "?r < length (objs ?st3)" and w3: "wiringMaxAmps (objs ?st3 ! ?r) > ?a"
    and k3: "slaveTWCs ?st3 senderID = Some ?r"
    using l2 w2 k2 by (simp_all only: set_protocol_version_keeps set_protocol_version_wiring)
  have w4: "wiringMaxAmps (objs ?st4 ! ?r) = ?a / 4"
    using l3 w3 by (rule cap_wiringMaxAmps_quarter)
  have l4: "?r < length (objs ?st4)" and k4: "slaveTWCs ?st4 senderID = Some ?r"
    using l3 k3 by (simp_all only: cap_wiringMaxAmps_keeps)
  have "slaveTWCs ?st5 senderID = Some ?r \<and> ?r < length (objs ?st5)
        \<and> wiringMaxAmps (objs ?st5 ! ?r) = ?a / 4"
    using l4 k4 w4 by (simp only: answer_linkready_keeps answer_linkready_wiring)
  moreover have "?a / 4 \<le> ?a" using adv_nonneg [of g3] by simp
  ultimately show ?thesis unfolding h by (simp only: fst_conv snd_conv) blast
qed

theorem C2_wiringMaxAmps_set_to_quarter_witness:
  "registry_consistent example_state
   \<and> slave_linkready_match example_linkready = Some ([0xAB, 0xCD], [0x77], [0x1F, 0x40])
   \<and> [0xAB, 0xCD] \<noteq> fakeTWCID example_state
   \<and> wiringMaxAmps (objs example_state ! 0) > advertised_maxAmps [0x1F, 0x40]
   \<and> (\<exists>r. slaveTWCs (snd (handle_slave_linkready (example_slave [] 0) 5 example_linkready
                                example_state)) [0xAB, 0xCD] = Some r
          \<and> wiringMaxAmps (objs (snd (handle_slave_linkready (example_slave [] 0) 5
                                        example_linkready example_state)) ! r)
              = advertised_maxAmps [0x1F, 0x40] / 4)"
proof -
  have h1: "registry_consistent example_state" by (rule example_consistent)
  have h2: "slave_linkready_match example_linkready = Some ([0xAB, 0xCD], [0x77], [0x1F, 0x40])"
    by (simp add: slave_linkready_match_def example_linkready_def)
  have h3: "[0xAB, 0xCD] \<noteq> fakeTWCID example_state" by (simp add: example_state_def)
  have a: "advertised_maxAmps [0x1F, 0x40] = 80" by (simp add: advertised_maxAmps_def)
  have w: "wiringMaxAmps (objs example_state ! 0) = 100"
    by (simp add: example_state_def example_slave_def)
  have k: "slaveTWCs example_state [0xAB, 0xCD] = Some 0" by (simp add: example_state_def)
  have h4: "(case slaveTWCs example_state [0xAB, 0xCD] of
               Some r0 \<Rightarrow> wiringMaxAmps (objs example_state ! r0)
             | None \<Rightarrow> wiringMaxAmps (example_slave [] 0)) > advertised_maxAmps [0x1F, 0x40]"
    by (simp add: k w a)
  from C2_wiringMaxAmps_set_to_quarter [OF h1 h2 h3 h4, of 5]
  show ?thesis using h1 h2 h3 w a by auto
qed

text \<open>
  Claim C2 as stated says that \<^verbatim>\<open>wiringMaxAmps\<close> afterwards equals the advertised \<^verbatim>\<open>maxAmps\<close>.
  For the session \<open>AB CD\<close> with \<^verbatim>\<open>wiringMaxAmps\<close> 100 and a link-ready advertising 80.00 A the
  value afterwards is 20, not 80: the source assigns \<^verbatim>\<open>maxAmps / 4\<close>.
\<close>

theorem C2_wiringMaxAmps_not_maxAmps:
  "slave_linkready_match example_linkready = Some ([0xAB, 0xCD], [0x77], [0x1F, 0x40])
   \<and> advertised_maxAmps [0x1F, 0x40] = 80
   \<and> slaveTWCs example_state [0xAB, 0xCD] = Some 0
   \<and> wiringMaxAmps (objs example_state ! 0) = 100
   \<and> slaveTWCs (snd (handle_slave_linkready (example_slave [] 0) 5 example_linkready
                        example_state)) [0xAB, 0xCD] = Some 0
   \<and> wiringMaxAmps (objs (snd (handle_slave_linkready (example_slave [] 0) 5 example_linkready
                                  example_state)) ! 0) = 20
   \<and> wiringMaxAmps (objs (snd (handle_slave_linkready (example_slave [] 0) 5 example_linkready
                                  example_state)) ! 0) \<noteq> advertised_maxAmps [0x1F, 0x40]"
proof -
  have h2: "slave_linkready_match example_linkready = Some ([0xAB, 0xCD], [0x77], [0x1F, 0x40])"
    by (simp add: slave_linkready_match_def example_linkready_def)
  have a: "advertised_maxAmps [0x1F, 0x40] = 80" by (simp add: advertised_maxAmps_def)
  have k: "slaveTWCs example_state [0xAB, 0xCD] = Some 0" by (simp add: example_state_def)
  have w: "wiringMaxAmps (objs example_state ! 0) = 100"
    by (simp add: example_state_def example_slave_def)
  have l: "length example_linkready = 14" by (simp add: example_linkready_def)
  have r: "handle_slave_linkready (example_slave [] 0) 5 example_linkready example_state
             = (None, answer_linkready 5 0 (cap_wiringMaxAmps 0 80
                 (set_protocol_version 0 14 (example_state\<lparr>spikeAmpsToCancel6ALimit := 21\<rparr>))))"
  proof -
    have f: "[0xAB, 0xCD] \<noteq> fakeTWCID example_state" by (simp add: example_state_def)
    have n: "new_slave (example_slave [] 0) [0xAB, 0xCD] 80
               (example_state\<lparr>spikeAmpsToCancel6ALimit := 21\<rparr>)
             = (0, example_state\<lparr>spikeAmpsToCancel6ALimit := 21\<rparr>)"
      by (simp add: new_slave_def k)
    show ?thesis
      by (simp add: handle_slave_linkready_def h2 a l n f)
  qed
  have e: "slaveTWCs (snd (handle_slave_linkready (example_slave [] 0) 5 example_linkready
                        example_state)) [0xAB, 0xCD] = Some 0"
    by (simp add: r answer_linkready_keeps cap_wiringMaxAmps_keeps set_protocol_version_keeps k)
  have v: "wiringMaxAmps (objs (snd (handle_slave_linkready (example_slave [] 0) 5
                             example_linkready example_state)) ! 0) = 20"
    by (simp add: r answer_linkready_wiring)
       (simp add: cap_wiringMaxAmps_def set_protocol_version_def update_obj_def
          example_state_def example_slave_def)
  show ?thesis using h2 a k w e v by simp
qed

text \<open>
  Claim C7. After a slave link-ready message is processed, \<^verbatim>\<open>spikeAmpsToCancel6ALimit\<close> is 21
  when the advertised \<^verbatim>\<open>maxAmps\<close> is at least 80 and 16 otherwise, for every advertised value
  (also when the sender's id is the master's own and the handler stops early).
\<close>

theorem C7_spike_amps_from_maxAmps:
  assumes "slave_linkready_match msg = Some (senderID, sign, g3)"
  shows "spikeAmpsToCancel6ALimit (snd (handle_slave_linkready init now msg st))
           = (if advertised_maxAmps g3 \<ge> 80 then 21 else 16)"
  using assms
  by (simp add: handle_slave_linkready_def Let_def case_prod_beta new_slave_spike)

theorem C7_spike_amps_from_maxAmps_witness:
  "slave_linkready_match example_linkready = Some ([0xAB, 0xCD], [0x77], [0x1F, 0x40])
   \<and> advertised_maxAmps [0x1F, 0x40] = 80
   \<and> spikeAmpsToCancel6ALimit example_state = 16
   \<and> spikeAmpsToCancel6ALimit
         (snd (handle_slave_linkready (example_slave [] 0) 5 example_linkready example_state)) = 21"
proof -
  have h: "slave_linkready_match example_linkready = Some ([0xAB, 0xCD], [0x77], [0x1F, 0x40])"
    by (simp add: slave_linkready_match_def example_linkready_def)
  have a: "advertised_maxAmps [0x1F, 0x40] = 80" by (simp add: advertised_maxAmps_def)
  have s: "spikeAmpsToCancel6ALimit example_state = 16" by (simp add: example_state_def)
  from C7_spike_amps_from_maxAmps [OF h, of "example_slave [] 0" 5 example_state]
  show ?thesis using h a s by simp
qed

section \<open>Properties of the periodic part of the main loop\<close>

lemma consistent_idx [simp]:
  "registry_consistent (st\<lparr>idxSlaveToSendNextHeartbeat := x\<rparr>) = registry_consistent st"
  by (simp add: registry_consistent_def)





section \<open>Properties of the allocator input\<close>

lemma add_values_sum: "add_values kvs val = val + sum_list (map snd kvs)"
  by (induction kvs arbitrary: val) auto

text \<open>
  Claim C5. For all generation values, consumption values, \<^verbatim>\<open>subtractChargerLoad\<close> and
  \<^verbatim>\<open>totalAmpsInUse\<close>, \<^verbatim>\<open>getMaxAmpsToDivideAmongSlaves\<close> returns the surplus in watts divided by
  240, where the surplus is the generation (the sum of the generation sources, at least 0)
  minus the offset, at least 0, and the offset is the consumption (the sum of the consumption
  sources, at least 0) minus 240 times \<^verbatim>\<open>totalAmpsInUse\<close> when \<^verbatim>\<open>subtractChargerLoad\<close> is set, at
  least 0.
\<close>

theorem C5_max_amps_formula:
  "getMaxAmpsToDivideAmongSlaves self
     = max 0 (max 0 (sum_list (map snd (generationValues self)))
              - max 0 (max 0 (sum_list (map snd (consumptionValues self)))
                       - (if subtractChargerLoad self then totalAmpsInUse self * 240 else 0)))
       / 240"
  by (simp add: getMaxAmpsToDivideAmongSlaves_def getGenerationOffset_def getGeneration_def
      getConsumption_def getChargerLoad_def getTotalAmpsInUse_def add_values_sum Let_def max_def)

section \<open>Properties of the web interface branches\<close>

lemma trim_pad_loop_eq: "trim_pad_loop s n = s @ replicate (n - length s) 0"
proof (induction s n rule: trim_pad_loop.induct)
  case (1 s makeLen)
  show ?case
  proof (cases "length s < makeLen")
    case True
    then have "makeLen - length s = Suc (makeLen - length (s @ [0]))" by simp
    with True "1.IH" show ?thesis
      by (subst trim_pad_loop.simps) (simp add: replicate_app_Cons_same)
  next
    case False
    then show ?thesis by (subst trim_pad_loop.simps) simp
  qed
qed

lemma trim_pad_eq: "trim_pad s n = take n (s @ replicate (n - length s) 0)"
  by (simp add: trim_pad_def trim_pad_loop_eq Let_def)

lemma length_trim_pad: "length (trim_pad s n) = n"
  by (simp add: trim_pad_eq)

text \<open>
  Claim C9. For a \<^verbatim>\<open>sendTWCMsg\<close> request from which a frame is obtained (hexadecimal digits
  found, an even number of them), when the frame cut or padded to its length begins with
  \<open>FC 19\<close>, \<open>FC 1A\<close> or \<open>FB E8\<close> the handler only prints its refusal: the state is as before but for
  that line of output, so nothing is written to the serial line; for every other frame the handler writes the
  frame, as \<^verbatim>\<open>send_msg\<close> encodes it, to the serial line.
\<close>

theorem C9_sendTWCMsg_refuses_dangerous_frames:
  assumes "sendTWCMsg_frame webMsg st = Some (Inr twcMsg)"
  shows "(take 2 twcMsg = [0xFC, 0x19] \<or> take 2 twcMsg = [0xFC, 0x1A] \<longrightarrow>
            handle_sendTWCMsg t webMsg st
              = (None, st\<lparr>out := out st @ [AbortCouldDisable twcMsg]\<rparr>))
         \<and> (take 2 twcMsg = [0xFB, 0xE8] \<longrightarrow>
              handle_sendTWCMsg t webMsg st
                = (None, st\<lparr>out := out st @ [AbortCouldCrash twcMsg]\<rparr>))
         \<and> (\<not> (take 2 twcMsg = [0xFC, 0x19] \<or> take 2 twcMsg = [0xFC, 0x1A]
                \<or> take 2 twcMsg = [0xFB, 0xE8]) \<longrightarrow>
              fst (handle_sendTWCMsg t webMsg st) = None
              \<and> out (snd (handle_sendTWCMsg t webMsg st))
                  = out st @ [SerialWrite (send_msg twcMsg)])"
  using assms by (simp add: handle_sendTWCMsg_def transmit_def)

theorem C9_sendTWCMsg_refuses_dangerous_frames_witness:
  "sendTWCMsg_frame ''sendTWCMsg=FC19'' example_state = Some (Inr ([0xFC, 0x19] @ replicate 11 0))
   \<and> out (snd (handle_sendTWCMsg 7 ''sendTWCMsg=FC19'' example_state))
       = [AbortCouldDisable ([0xFC, 0x19] @ replicate 11 0)]
   \<and> sendTWCMsg_frame ''sendTWCMsg=FBE0'' example_state = Some (Inr ([0xFB, 0xE0] @ replicate 11 0))
   \<and> out (snd (handle_sendTWCMsg 7 ''sendTWCMsg=FBE0'' example_state))
       = [SerialWrite (send_msg ([0xFB, 0xE0] @ replicate 11 0))]"
proof -
  have n: "sendTWCMsg_len example_state = 13"
    by (simp add: sendTWCMsg_len_def example_state_def example_slave_def)
  have h1: "sendTWCMsg_frame ''sendTWCMsg=FC19'' example_state
              = Some (Inr ([0xFC, 0x19] @ replicate 11 0))"
    by (simp add: sendTWCMsg_frame_def search_hex_def is_hex_def hex_val_def trim_pad_eq n)
  have h2: "sendTWCMsg_frame ''sendTWCMsg=FBE0'' example_state
              = Some (Inr ([0xFB, 0xE0] @ replicate 11 0))"
    by (simp add: sendTWCMsg_frame_def search_hex_def is_hex_def hex_val_def trim_pad_eq n)
  have o: "out example_state = []" by (simp add: example_state_def)
  from C9_sendTWCMsg_refuses_dangerous_frames [OF h1, of 7]
       C9_sendTWCMsg_refuses_dangerous_frames [OF h2, of 7]
  show ?thesis using h1 h2 o by simp
qed

lemma is_ascii_take: "is_ascii s \<Longrightarrow> is_ascii (take n s)"
  unfolding is_ascii_def list_all_iff by (auto dest: in_set_takeD)

lemma send_web_response_single:
  assumes a: "is_ascii body" and p: "290 < length body"
  shows "send_web_response t i free (body, 0)
           = (if 296 \<le> free then (Done, [(t, i, take 290 body)]) else (Busy, []))"
proof -
  from p have ne: "body \<noteq> []" by auto
  with p is_ascii_take [OF a, of 290] show ?thesis
    by (simp add: send_web_response_def)
qed

lemma web_response_numPackets:
  "web_response statusText webMsg st = Inr (body, n) \<Longrightarrow> n = 0"
  by (auto simp add: web_response_def web_dumpState_def web_getLastTWCMsgResponse_def
      split: if_splits option.splits)

text \<open>
  Claim C8, as amended. For every command whose branch is done without an exception,
  \<^verbatim>\<open>numPackets\<close> is 0 when the response is sent; an ASCII response text of more than 290 bytes
  is cut to its first 290 bytes and sent as one message when the queue has room for its 296
  bytes, and nothing is sent when it has not.
\<close>

theorem C8_over_length_response_cut:
  assumes r: "web_response statusText webMsg st = Inr (body, n)"
    and a: "is_ascii body" and p: "290 < length body"
  shows "n = 0
         \<and> (296 \<le> free \<longrightarrow>
              send_web_response t i free (body, n) = (Done, [(t, i, take 290 body)]))
         \<and> (free < 296 \<longrightarrow> send_web_response t i free (body, n) = (Busy, []))"
  using web_response_numPackets [OF r] send_web_response_single [OF a p, of t i free]
  by simp

lemma hex_digit_ascii: "n < 16 \<Longrightarrow> (of_char (hex_digit n) :: nat) < 128"
  by (simp add: hex_digit_def)

lemma hex_byte_ascii: "is_ascii (hex_byte c)"
proof -
  have "unat c < 2 ^ LENGTH(8)" by (rule unsigned_less)
  then have "unat c < 256" by simp
  then have "unat c div 16 < 16" "unat c mod 16 < 16" by arith+
  then show ?thesis by (simp add: is_ascii_def hex_byte_def hex_digit_ascii)
qed

lemma join_space_ascii: "list_all is_ascii xs \<Longrightarrow> is_ascii (join_space xs)"
  by (induction xs rule: join_space.induct) (simp_all add: is_ascii_def)

lemma hex_str_ascii: "is_ascii (hex_str ba)"
  by (simp add: hex_str_def join_space_ascii list_all_iff hex_byte_ascii)

lemma length_join_space:
  "\<forall>x \<in> set xs. length x = 2 \<Longrightarrow> length (join_space xs) = 3 * length xs - 1"
  by (induction xs rule: join_space.induct) simp_all

lemma length_hex_str: "length (hex_str ba) = 3 * length ba - 1"
  by (simp add: hex_str_def length_join_space hex_byte_def)


theorem C8_over_length_response_cut_witness:
  "web_response example_text ''getStatus'' example_state = Inr (example_text, 0)
   \<and> is_ascii example_text \<and> 290 < length example_text
   \<and> send_web_response 1 2 1000 (example_text, 0) = (Done, [(1, 2, take 290 example_text)])
   \<and> send_web_response 1 2 100 (example_text, 0) = (Busy, [])"
proof -
  have r: "web_response example_text ''getStatus'' example_state = Inr (example_text, 0)"
    by (simp add: web_response_def)
  have h: "is_ascii example_text"
    by (simp add: is_ascii_def list_all_iff example_text_def)
  have l: "290 < length example_text" by (simp add: example_text_def)
  from C8_over_length_response_cut [OF r h l, of 1000 1 2]
       C8_over_length_response_cut [OF r h l, of 100 1 2]
  show ?thesis using r h l by simp
qed

text \<open>
  Claim C8 as stated says that no response longer than 290 bytes is cut. The command
  \<^verbatim>\<open>getLastTWCMsgResponse\<close> leaves \<^verbatim>\<open>numPackets\<close> at 0: with a stored message of 98 bytes its
  response has 293 bytes, and the only message sent, to a queue with room, carries the first
  290 of them.
\<close>

theorem C8_getLastTWCMsgResponse_cut:
  "web_response [] ''getLastTWCMsgResponse''
       (example_state\<lparr>lastTWCResponseMsg := Some example_response\<rparr>)
     = Inr (hex_str example_response, 0)
   \<and> length (hex_str example_response) = 293
   \<and> send_web_response 1 2 1000 (hex_str example_response, 0)
       = (Done, [(1, 2, take 290 (hex_str example_response))])
   \<and> length (take 290 (hex_str example_response)) = 290"
proof -
  have ne: "example_response \<noteq> []" by (simp add: example_response_def)
  have r: "web_response [] ''getLastTWCMsgResponse''
               (example_state\<lparr>lastTWCResponseMsg := Some example_response\<rparr>)
             = Inr (hex_str example_response, 0)"
    using ne by (simp add: web_response_def web_getLastTWCMsgResponse_def)
  have l: "length (hex_str example_response) = 293"
    by (simp add: length_hex_str example_response_def)
  then have g: "290 < length (hex_str example_response)" by simp
  have s: "send_web_response 1 2 1000 (hex_str example_response, 0)
             = (Done, [(1, 2, take 290 (hex_str example_response))])"
    by (simp add: send_web_response_single [OF hex_str_ascii g])
  show ?thesis by (simp add: r l s)
qed

end
